theory Spec2Isabelle
  imports Complex_Main
begin

section \<open>JavaScript numbers\<close>

text \<open>
  A JavaScript number is an IEEE-754 double. Finite numbers are modelled by the rational
  they denote. An operation whose exact result need not be a double is followed by
  \<open>fl\<close>, rounding to the nearest double (53-bit significand, ties to even). Overflow
  to infinity and the subnormal range are outside the model: every quantity below is a
  sample rate, an array length or an index.
\<close>

function bitlen :: "int \<Rightarrow> int" where
  "bitlen k = (if k \<le> 0 then 0 else 1 + bitlen (k div 2))"
  by pat_completeness auto
termination
  by (relation "measure nat") auto

declare bitlen.simps [simp del]

definition pow2 :: "int \<Rightarrow> rat" where
  "pow2 e = (if 0 \<le> e then 2 ^ nat e else 1 / 2 ^ nat (- e))"

definition expo :: "rat \<Rightarrow> int" where
  \<comment> \<open>for \<open>0 < x\<close>: the \<open>e\<close> with \<open>2 ^ e \<le> x < 2 ^ (e + 1)\<close>\<close>
  "expo x = (if 1 \<le> x then bitlen \<lfloor>x\<rfloor> - 1 else - bitlen (\<lceil>1 / x\<rceil> - 1))"

definition roundEven :: "rat \<Rightarrow> int" where
  "roundEven x =
     (let f = \<lfloor>x\<rfloor>; r = x - of_int f
      in if r < 1 / 2 then f else if 1 / 2 < r then f + 1
         else if even f then f else f + 1)"

definition fl :: "rat \<Rightarrow> rat" where
  "fl x =
     (if x = 0 then 0
      else let a = \<bar>x\<bar>; u = pow2 (expo a - 52)
           in sgn x * of_int (roundEven (a / u)) * u)"

text \<open>
  Storing a number into an \<open>Int16Array\<close> applies \<open>ToInt16\<close>: truncate towards zero,
  reduce modulo \<open>2 ^ 16\<close>, read as two's complement. \<open>NaN\<close> (here \<open>None\<close>) stores 0.
\<close>

definition js_trunc :: "rat \<Rightarrow> int" where
  "js_trunc x = (if x < 0 then - \<lfloor>- x\<rfloor> else \<lfloor>x\<rfloor>)"

definition toInt16 :: "rat option \<Rightarrow> int" where
  "toInt16 v =
     (case v of
        None \<Rightarrow> 0
      | Some x \<Rightarrow> (let k = js_trunc x mod 65536 in if 32768 \<le> k then k - 65536 else k))"

section \<open>Resampler (components/LiveCoach.tsx, audioResample)\<close>

datatype error = RangeError

definition targetRate :: rat where
  "targetRate = 16000"

text \<open>\<open>buffer[k]\<close> on a typed array: \<open>undefined\<close> (here \<open>None\<close>) outside the array.\<close>

definition sampleAt :: "rat list \<Rightarrow> int \<Rightarrow> rat option" where
  "sampleAt buffer k = (if 0 \<le> k \<and> nat k < length buffer then Some (buffer ! nat k) else None)"

text \<open>
  \<open>new Int16Array(Math.ceil(buffer.length / ratio))\<close>. A division by zero gives
  \<open>Infinity\<close> (a \<open>RangeError\<close> as a length) or, for an empty buffer, \<open>NaN\<close> (length 0);
  a length of \<open>-1\<close> or less is a \<open>RangeError\<close>.
\<close>

definition newLength :: "rat list \<Rightarrow> rat \<Rightarrow> error + nat" where
  "newLength buffer ratio =
     (if ratio = 0 then (if length buffer = 0 then Inr 0 else Inl RangeError)
      else let n = \<lceil>fl (of_nat (length buffer) / ratio)\<rceil>
           in if n < 0 then Inl RangeError else Inr (nat n))"

definition originalIndex :: "rat \<Rightarrow> nat \<Rightarrow> int" where
  "originalIndex ratio i = \<lfloor>fl (of_nat i * ratio)\<rfloor>"

text \<open>
  The first copy of the component: \<open>Math.max(-1, Math.min(1, buffer[originalIndex]))\<close>.
  With \<open>undefined\<close> both \<open>Math.min\<close> and \<open>Math.max\<close> give \<open>NaN\<close>.
\<close>

definition clampSample :: "rat option \<Rightarrow> rat option" where
  "clampSample v = map_option (\<lambda>x. max (- 1) (min 1 x)) v"

definition audioResample :: "rat list \<Rightarrow> rat \<Rightarrow> error + int list" where
  "audioResample buffer sampleRate =
     (if sampleRate = targetRate
      then Inr (map (\<lambda>x. toInt16 (Some (x * 32768))) buffer)
      else let ratio = fl (sampleRate / targetRate)
           in case newLength buffer ratio of
                Inl e \<Rightarrow> Inl e
              | Inr n \<Rightarrow>
                  Inr (map (\<lambda>i. toInt16 (map_option (\<lambda>val. val * 32768)
                                   (clampSample (sampleAt buffer (originalIndex ratio i)))))
                         [0..<n]))"

text \<open>
  The second copy reads \<open>buffer[originalIndex] || 0\<close>: \<open>undefined\<close> becomes 0 before
  the clamp.
\<close>

definition orZero :: "rat option \<Rightarrow> rat" where
  "orZero v = (case v of None \<Rightarrow> 0 | Some x \<Rightarrow> x)"

definition audioResample2 :: "rat list \<Rightarrow> rat \<Rightarrow> error + int list" where
  "audioResample2 buffer sampleRate =
     (if sampleRate = targetRate
      then Inr (map (\<lambda>x. toInt16 (Some (x * 32768))) buffer)
      else let ratio = fl (sampleRate / targetRate)
           in case newLength buffer ratio of
                Inl e \<Rightarrow> Inl e
              | Inr n \<Rightarrow>
                  Inr (map (\<lambda>i. toInt16 (Some (max (- 1)
                                   (min 1 (orZero (sampleAt buffer (originalIndex ratio i)))) * 32768)))
                         [0..<n]))"

text \<open>The quantisation the specification describes, for comparison.\<close>

definition spec_quantize :: "rat \<Rightarrow> int" where
  "spec_quantize x = max (- 32768) (min 32767 (round (x * 32767)))"

section \<open>Playback scheduler (components/LiveCoach.tsx, onmessage)\<close>

text \<open>
  Times of the output audio clock and buffer durations are exact rationals. A message is
  modelled at the level of its decoded content: the transcript text, the 16-bit PCM
  samples of its first inline audio part, and the interruption flag.
\<close>

datatype speaker = Ai | System

record transcriptItem =
  itemSource :: speaker
  itemText :: string

record liveServerMessage =
  outputTranscription :: "string option"
  inlineData :: "int list option"
  interrupted :: bool

record audioBuffer =
  channelData :: "rat list"
  bufferRate :: rat

definition duration :: "audioBuffer \<Rightarrow> rat" where
  "duration b = of_nat (length (channelData b)) / bufferRate b"

text \<open>\<open>decodeAudioData(data, ctx, sampleRate, 1)\<close>: one channel, each sample divided by 32768.\<close>

definition decodeAudioData :: "int list \<Rightarrow> rat \<Rightarrow> audioBuffer" where
  "decodeAudioData dataInt16 sampleRate =
     \<lparr>channelData = map (\<lambda>v. of_int v / 32768) dataInt16, bufferRate = sampleRate\<rparr>"

text \<open>
  An \<open>AudioBufferSourceNode\<close>: its identity, its buffer and the time passed to
  \<open>start\<close>.
\<close>

record audioSource =
  sourceId :: nat
  sourceBuffer :: audioBuffer
  startedAt :: rat

record scheduler =
  outputAudioCtx :: bool
  nextStartTimeRef :: rat
  audioSourcesRef :: "audioSource list"
  isAiTalking :: bool
  transcripts :: "transcriptItem list"
  started :: "audioSource list"
  stopped :: "audioSource list"

text \<open>
  \<open>started\<close> and \<open>stopped\<close> record, in call order, the nodes on which \<open>start\<close> and
  \<open>stop\<close> were called; \<open>audioSourcesRef\<close> is the \<open>Set\<close> of nodes not yet ended, in
  insertion order.
\<close>

definition endsWith :: "string \<Rightarrow> char \<Rightarrow> bool" where
  "endsWith s c = (s \<noteq> [] \<and> last s = c)"

definition appendTranscript :: "string \<Rightarrow> transcriptItem list \<Rightarrow> transcriptItem list" where
  "appendTranscript t prev =
     (if prev \<noteq> [] \<and> itemSource (last prev) = Ai
         \<and> \<not> endsWith (itemText (last prev)) (CHR ''.'')
         \<and> \<not> endsWith (itemText (last prev)) (CHR ''!'')
         \<and> \<not> endsWith (itemText (last prev)) (CHR ''?'')
      then butlast prev @ [(last prev)\<lparr>itemText := itemText (last prev) @ t\<rparr>]
      else prev @ [\<lparr>itemSource = Ai, itemText = t\<rparr>])"

definition handleTranscript :: "liveServerMessage \<Rightarrow> scheduler \<Rightarrow> scheduler" where
  "handleTranscript m s =
     (case outputTranscription m of
        None \<Rightarrow> s
      | Some t \<Rightarrow> if t = [] then s else s\<lparr>transcripts := appendTranscript t (transcripts s)\<rparr>)"

text \<open>
  The audio part, with \<open>now = ctx.currentTime\<close>. An absent or empty payload and a
  missing output context skip it.
\<close>

definition handleAudio :: "rat \<Rightarrow> liveServerMessage \<Rightarrow> scheduler \<Rightarrow> scheduler" where
  "handleAudio now m s =
     (case inlineData m of
        None \<Rightarrow> s
      | Some dataInt16 \<Rightarrow>
          if dataInt16 = [] \<or> \<not> outputAudioCtx s then s
          else let audioBuffer = decodeAudioData dataInt16 24000;
                   start = (if nextStartTimeRef s < now then now else nextStartTimeRef s);
                   src = \<lparr>sourceId = length (started s), sourceBuffer = audioBuffer, startedAt = start\<rparr>
               in s\<lparr>isAiTalking := True,
                    nextStartTimeRef := start + duration audioBuffer,
                    started := started s @ [src],
                    audioSourcesRef := audioSourcesRef s @ [src]\<rparr>)"

definition handleInterrupted :: "liveServerMessage \<Rightarrow> scheduler \<Rightarrow> scheduler" where
  "handleInterrupted m s =
     (if interrupted m
      then s\<lparr>stopped := stopped s @ audioSourcesRef s,
             audioSourcesRef := [],
             nextStartTimeRef := 0,
             isAiTalking := False\<rparr>
      else s)"

definition onmessage :: "rat \<Rightarrow> liveServerMessage \<Rightarrow> scheduler \<Rightarrow> scheduler" where
  "onmessage now m s = handleInterrupted m (handleAudio now m (handleTranscript m s))"

text \<open>\<open>source.onended\<close>: the node leaves the set; an empty set ends the talking state.\<close>

definition onended :: "nat \<Rightarrow> scheduler \<Rightarrow> scheduler" where
  "onended i s =
     (let rest = filter (\<lambda>src. sourceId src \<noteq> i) (audioSourcesRef s)
      in s\<lparr>audioSourcesRef := rest, isAiTalking := (if rest = [] then False else isAiTalking s)\<rparr>)"

text \<open>A run of messages, each with the clock value read while it is handled.\<close>

fun onmessages :: "(rat \<times> liveServerMessage) list \<Rightarrow> scheduler \<Rightarrow> scheduler" where
  "onmessages [] s = s"
| "onmessages ((now, m) # ms) s = onmessages ms (onmessage now m s)"

definition audioMessage :: "int list \<Rightarrow> liveServerMessage" where
  "audioMessage dataInt16 =
     \<lparr>outputTranscription = None, inlineData = Some dataInt16, interrupted = False\<rparr>"

definition interruptMessage :: liveServerMessage where
  "interruptMessage = \<lparr>outputTranscription = None, inlineData = None, interrupted = True\<rparr>"

definition initialScheduler :: scheduler where
  "initialScheduler =
     \<lparr>outputAudioCtx = True, nextStartTimeRef = 0, audioSourcesRef = [], isAiTalking = False,
      transcripts = [], started = [], stopped = []\<rparr>"

text \<open>Sources play back to back: each starts no earlier than its predecessor ends.\<close>

fun backToBack :: "audioSource list \<Rightarrow> bool" where
  "backToBack (a # b # rest) =
     (startedAt a + duration (sourceBuffer a) \<le> startedAt b \<and> backToBack (b # rest))"
| "backToBack _ = True"

text \<open>
  The invariant behind gapless playback: the sources started so far are back to back and
  the last one ends no later than \<open>nextStartTimeRef\<close>.
\<close>

definition schedInv :: "scheduler \<Rightarrow> bool" where
  "schedInv s \<longleftrightarrow> backToBack (started s) \<and>
     (started s = [] \<or>
      startedAt (last (started s)) + duration (sourceBuffer (last (started s))) \<le> nextStartTimeRef s)"

section \<open>Timeline monitor (pages/ResultPage.tsx, in unnamed/part_004)\<close>

text \<open>One entry of \<open>AnalysisResult.timestamps\<close> (types.ts).\<close>

record timestampEntry =
  frame :: int
  timestamp :: rat
  displayTime :: string
  issue :: string
  bodyPartFeedback :: "(string \<times> string) list"
  bodyPartTags :: "(string \<times> string) list"
  bodyPartStatuses :: "(string \<times> bool) list"
  coachingCues :: "string list"
  isPositive :: bool
  visualImage :: "string option"

record displayFeedback =
  title :: string
  feedback :: "(string \<times> string) list"
  positive :: bool
  image :: "string option"

text \<open>The video element, as far as the monitor reads and writes it.\<close>

record video =
  currentTime :: rat
  paused :: bool

text \<open>
  A pending \<open>setTimeout\<close>: its id and the value of \<open>smartPlayEnabled\<close> captured by
  its callback.
\<close>

record timer =
  timerId :: nat
  capturedEnabled :: bool

record resultPage =
  smartPlayEnabled :: bool
  currentDisplayFeedback :: "displayFeedback option"
  videoRef :: "video option"
  processedTimestamps :: "rat set"
  resumeTimerRef :: "nat option"
  lastCheckTimeRef :: rat
  timers :: "timer list"
  nextTimerId :: nat

text \<open>
  \<open>timers\<close> is the browser's table of pending timeouts and \<open>nextTimerId\<close> the id the
  next \<open>setTimeout\<close> returns; ids are positive, so a stored id is truthy.
\<close>

definition clearTimeout :: "nat \<Rightarrow> resultPage \<Rightarrow> resultPage" where
  "clearTimeout i s = s\<lparr>timers := filter (\<lambda>t. timerId t \<noteq> i) (timers s)\<rparr>"

definition clearResumeTimer :: "resultPage \<Rightarrow> resultPage" where
  \<comment> \<open>\<open>if (resumeTimerRef.current) clearTimeout(resumeTimerRef.current)\<close>\<close>
  "clearResumeTimer s = (case resumeTimerRef s of None \<Rightarrow> s | Some i \<Rightarrow> clearTimeout i s)"

definition setResumeTimer :: "resultPage \<Rightarrow> resultPage" where
  \<comment> \<open>\<open>resumeTimerRef.current = window.setTimeout(..., 3000)\<close>\<close>
  "setResumeTimer s =
     s\<lparr>timers := timers s @ [\<lparr>timerId = nextTimerId s, capturedEnabled = smartPlayEnabled s\<rparr>],
       resumeTimerRef := Some (nextTimerId s),
       nextTimerId := Suc (nextTimerId s)\<rparr>"

definition safePlay :: "resultPage \<Rightarrow> resultPage" where
  "safePlay s = (case videoRef s of None \<Rightarrow> s | Some v \<Rightarrow> s\<lparr>videoRef := Some (v\<lparr>paused := False\<rparr>)\<rparr>)"

text \<open>
  The backward-seek branch: for each entry with \<open>timestamp > currentTime\<close>, delete its
  timestamp from the processed set.
\<close>

definition clearAfter :: "timestampEntry list \<Rightarrow> rat \<Rightarrow> rat set \<Rightarrow> rat set" where
  "clearAfter ts currTime processed =
     fold (\<lambda>t p. if currTime < timestamp t then p - {timestamp t} else p) ts processed"

definition payload :: "timestampEntry \<Rightarrow> displayFeedback" where
  "payload m = \<lparr>title = issue m, feedback = bodyPartFeedback m, positive = isPositive m,
                 image = visualImage m\<rparr>"

text \<open>One run of \<open>monitorFrames\<close> (one animation frame).\<close>

definition monitorFrames :: "timestampEntry list \<Rightarrow> resultPage \<Rightarrow> resultPage" where
  "monitorFrames ts s =
     (case videoRef s of
        None \<Rightarrow> s
      | Some v \<Rightarrow>
          if \<not> smartPlayEnabled s \<or> paused v then s
          else let currTime = currentTime v;
                   prevTime = lastCheckTimeRef s;
                   processed = (if currTime < prevTime - 1 / 2
                                then clearAfter ts currTime (processedTimestamps s)
                                else processedTimestamps s)
               in case find (\<lambda>t. prevTime \<le> timestamp t \<and> timestamp t \<le> currTime
                                \<and> timestamp t \<notin> processed) ts of
                    None \<Rightarrow> s\<lparr>processedTimestamps := processed, lastCheckTimeRef := currTime\<rparr>
                  | Some m \<Rightarrow>
                      (setResumeTimer (clearResumeTimer
                         (s\<lparr>videoRef := Some (v\<lparr>paused := True, currentTime := timestamp m\<rparr>),
                            processedTimestamps := insert (timestamp m) processed,
                            currentDisplayFeedback := Some (payload m)\<rparr>)))
                        \<lparr>lastCheckTimeRef := currTime\<rparr>)"

text \<open>
  The callback of the dwell timer, run when timeout \<open>i\<close> expires; a cleared timeout
  never runs.
\<close>

definition timerFired :: "nat \<Rightarrow> resultPage \<Rightarrow> resultPage" where
  "timerFired i s =
     (case find (\<lambda>t. timerId t = i) (timers s) of
        None \<Rightarrow> s
      | Some t \<Rightarrow>
          (let s1 = (clearTimeout i s)\<lparr>currentDisplayFeedback := None\<rparr>
           in if capturedEnabled t \<and> (case videoRef s1 of None \<Rightarrow> False | Some v \<Rightarrow> paused v)
              then safePlay s1 else s1))"

text \<open>
  The SMART COACH button, followed by the cleanup of the effect that depends on
  \<open>smartPlayEnabled\<close> (which clears the resume timer again).
\<close>

definition toggleSmartPlay :: "resultPage \<Rightarrow> resultPage" where
  "toggleSmartPlay s =
     (let s1 = (if smartPlayEnabled s
                then clearResumeTimer (s\<lparr>currentDisplayFeedback := None\<rparr>)
                else s);
          s2 = s1\<lparr>smartPlayEnabled := \<not> smartPlayEnabled s\<rparr>
      in clearResumeTimer s2)"

definition jumpToTime :: "rat \<Rightarrow> resultPage \<Rightarrow> resultPage" where
  "jumpToTime t s =
     (case videoRef s of
        None \<Rightarrow> s
      | Some v \<Rightarrow>
          safePlay (s\<lparr>processedTimestamps := processedTimestamps s - {t},
                      lastCheckTimeRef := t - 1 / 10,
                      videoRef := Some (v\<lparr>currentTime := t\<rparr>)\<rparr>))"

text \<open>
  What can happen to the page: an animation frame, an expiring timeout, the toggle, a tap
  on a timestamp (\<open>jumpToTime\<close>), the user's play, pause and seek on the video controls,
  and playback advancing the position.
\<close>

datatype pageEvent =
  Tick | TimerFired nat | Toggle | JumpTo rat | UserPlay | UserPause | UserSeek rat | Advance rat

definition onVideo :: "(video \<Rightarrow> video) \<Rightarrow> resultPage \<Rightarrow> resultPage" where
  "onVideo f s = (case videoRef s of None \<Rightarrow> s | Some v \<Rightarrow> s\<lparr>videoRef := Some (f v)\<rparr>)"

fun pageStep :: "timestampEntry list \<Rightarrow> pageEvent \<Rightarrow> resultPage \<Rightarrow> resultPage" where
  "pageStep ts Tick s = monitorFrames ts s"
| "pageStep ts (TimerFired i) s = timerFired i s"
| "pageStep ts Toggle s = toggleSmartPlay s"
| "pageStep ts (JumpTo t) s = jumpToTime t s"
| "pageStep ts UserPlay s = onVideo (\<lambda>v. v\<lparr>paused := False\<rparr>) s"
| "pageStep ts UserPause s = onVideo (\<lambda>v. v\<lparr>paused := True\<rparr>) s"
| "pageStep ts (UserSeek t) s = onVideo (\<lambda>v. v\<lparr>currentTime := t\<rparr>) s"
| "pageStep ts (Advance d) s =
     onVideo (\<lambda>v. if paused v then v else v\<lparr>currentTime := currentTime v + d\<rparr>) s"

fun pageRun :: "timestampEntry list \<Rightarrow> pageEvent list \<Rightarrow> resultPage \<Rightarrow> resultPage" where
  "pageRun ts [] s = s"
| "pageRun ts (e # es) s = pageRun ts es (pageStep ts e s)"

fun manualResume :: "pageEvent \<Rightarrow> bool" where
  "manualResume UserPlay = True"
| "manualResume (JumpTo t) = True"
| "manualResume _ = False"

definition videoPaused :: "resultPage \<Rightarrow> bool" where
  "videoPaused s = (case videoRef s of None \<Rightarrow> False | Some v \<Rightarrow> paused v)"

definition videoTime :: "resultPage \<Rightarrow> rat" where
  "videoTime s = (case videoRef s of None \<Rightarrow> 0 | Some v \<Rightarrow> currentTime v)"

text \<open>Every pending timeout is the one \<open>resumeTimerRef\<close> holds.\<close>

definition timersTracked :: "resultPage \<Rightarrow> bool" where
  "timersTracked s = list_all (\<lambda>t. resumeTimerRef s = Some (timerId t)) (timers s)"

definition initialPage :: resultPage where
  "initialPage =
     \<lparr>smartPlayEnabled = True, currentDisplayFeedback = None,
      videoRef = Some \<lparr>currentTime = 0, paused = True\<rparr>, processedTimestamps = {},
      resumeTimerRef = None, lastCheckTimeRef = 0, timers = [], nextTimerId = 1\<rparr>"

text \<open>The timeout held in \<open>resumeTimerRef\<close> expires.\<close>

definition dwellExpires :: "resultPage \<Rightarrow> resultPage" where
  "dwellExpires s = (case resumeTimerRef s of None \<Rightarrow> s | Some i \<Rightarrow> timerFired i s)"

text \<open>
  Scrubbing forward: the video plays on by \<open>d\<close>, a frame runs, and when the frame paused
  the video the dwell timer expires and resumes it. The result lists the positions at
  which the monitor paused, in order, with the final state.
\<close>

fun scrub :: "timestampEntry list \<Rightarrow> rat list \<Rightarrow> resultPage \<Rightarrow> rat list \<times> resultPage" where
  "scrub ts [] s = ([], s)"
| "scrub ts (d # ds) s =
     (let s1 = monitorFrames ts (pageStep ts (Advance d) s)
      in if videoPaused s1
         then (let (log, s2) = scrub ts ds (dwellExpires s1)
               in (videoTime s1 # log, s2))
         else scrub ts ds s1)"

text \<open>An entry with a timestamp and a title, everything else empty.\<close>

definition entryAt :: "rat \<Rightarrow> string \<Rightarrow> timestampEntry" where
  "entryAt t name =
     \<lparr>frame = 0, timestamp = t, displayTime = [], issue = name, bodyPartFeedback = [],
      bodyPartTags = [], bodyPartStatuses = [], coachingCues = [], isPositive = False,
      visualImage = None\<rparr>"

text \<open>
  An unconsumed entry whose timestamp lies in the closed interval from the last observed
  position to the position \<open>c\<close>.
\<close>

definition due :: "resultPage \<Rightarrow> rat \<Rightarrow> timestampEntry \<Rightarrow> bool" where
  "due s c t \<longleftrightarrow>
     lastCheckTimeRef s \<le> timestamp t \<and> timestamp t \<le> c \<and> timestamp t \<notin> processedTimestamps s"





text \<open>
  The scenario: three entries on a ten-second video; the monitor is switched off during
  the dwell of the second entry.
\<close>

definition dwellPage :: resultPage where
  "dwellPage =
     monitorFrames [entryAt 2 ''a'', entryAt 5 ''b'', entryAt 9 ''c'']
       (pageStep [entryAt 2 ''a'', entryAt 5 ''b'', entryAt 9 ''c''] (Advance (3 / 10))
         (snd (scrub [entryAt 2 ''a'', entryAt 5 ''b'', entryAt 9 ''c''] (replicate 16 (3 / 10))
           (pageStep [entryAt 2 ''a'', entryAt 5 ''b'', entryAt 9 ''c''] UserPlay initialPage))))"

section \<open>Live session start (components/LiveCoach.tsx, first copy)\<close>

text \<open>
  The camera and microphone, the connection and the audio context are outside the
  component. \<open>deviceEnv\<close> holds what they answer: whether \<open>getUserMedia\<close> exists, the
  results of the request for audio and video and of the request for video alone, the
  message of the error \<open>ai.live.connect\<close> throws, if it throws, and the sample rate of the
  input context.
\<close>

datatype deviceError =
  NotAllowedError | PermissionDeniedError | NotFoundError | NotReadableError | OtherDeviceError string

record mediaStream =
  audioTracks :: nat
  videoTracks :: nat

record deviceEnv =
  supported :: bool
  avRequest :: "deviceError + mediaStream"
  videoRequest :: "deviceError + mediaStream"
  connectError :: "string option"
  ctxSampleRate :: rat

text \<open>
  The values of the render that created \<open>handleStartSession\<close>, as the callbacks of the
  connection see them.
\<close>

record closure =
  capturedAudioInputAvailable :: bool
  capturedMuted :: bool

record liveCoach =
  isCameraEnabled :: bool
  hasStarted :: bool
  isActive :: bool
  isConnecting :: bool
  errorText :: "string option"
  permissionError :: bool
  isMuted :: bool
  audioInputAvailable :: bool
  statusMessage :: string
  micLevel :: "rat option"
  isTransmitting :: bool
  streamRef :: "mediaStream option"
  inputAudioCtx :: "rat option"
  scriptProcessorRef :: "closure option"
  inputGainNodeRef :: bool
  sessionRef :: bool
  liveCallbacks :: "closure option"
  frameIntervalRef :: bool
  connectTimeoutRef :: bool
  sentAudio :: "int list list"

text \<open>
  \<open>inputAudioCtx\<close> is the sample rate of the input context once created;
  \<open>scriptProcessorRef\<close> is the audio tap, with the values its \<open>onaudioprocess\<close> handler
  captured; \<open>liveCallbacks\<close> are the callbacks registered with the connection;
  \<open>sentAudio\<close> lists the PCM packets passed to \<open>sendRealtimeInput\<close>.
\<close>

definition initialCoach :: liveCoach where
  "initialCoach =
     \<lparr>isCameraEnabled = False, hasStarted = False, isActive = False, isConnecting = False,
      errorText = None, permissionError = False, isMuted = False, audioInputAvailable = True,
      statusMessage = ''Ready to connect'', micLevel = Some 0, isTransmitting = False,
      streamRef = None, inputAudioCtx = None, scriptProcessorRef = None,
      inputGainNodeRef = False, sessionRef = False, liveCallbacks = None,
      frameIntervalRef = False, connectTimeoutRef = False, sentAudio = []\<rparr>"

definition handleStreamSuccess :: "mediaStream \<Rightarrow> bool \<Rightarrow> liveCoach \<Rightarrow> liveCoach" where
  "handleStreamSuccess stream hasAudio s =
     s\<lparr>streamRef := Some stream, isCameraEnabled := True, errorText := None,
       permissionError := False, audioInputAvailable := hasAudio\<rparr>"

definition deviceFailure :: "deviceError \<Rightarrow> liveCoach \<Rightarrow> liveCoach" where
  "deviceFailure err2 s =
     (case err2 of
        NotAllowedError \<Rightarrow>
          s\<lparr>permissionError := True, errorText := Some ''Access denied. Please reset permissions.''\<rparr>
      | PermissionDeniedError \<Rightarrow>
          s\<lparr>permissionError := True, errorText := Some ''Access denied. Please reset permissions.''\<rparr>
      | NotFoundError \<Rightarrow> s\<lparr>errorText := Some ''No camera found.''\<rparr>
      | NotReadableError \<Rightarrow> s\<lparr>errorText := Some ''Camera in use by another app.''\<rparr>
      | OtherDeviceError name \<Rightarrow> s\<lparr>errorText := Some (''Camera Error: '' @ name)\<rparr>)"

definition enableCamera :: "deviceEnv \<Rightarrow> liveCoach \<Rightarrow> liveCoach" where
  "enableCamera env s =
     (let s1 = s\<lparr>errorText := None, permissionError := False, streamRef := None\<rparr>
      in if \<not> supported env then s1\<lparr>errorText := Some ''Browser not supported.''\<rparr>
         else case avRequest env of
                Inr stream \<Rightarrow> handleStreamSuccess stream True s1
              | Inl err \<Rightarrow>
                  (case videoRequest env of
                     Inr stream \<Rightarrow> handleStreamSuccess stream False s1
                   | Inl err2 \<Rightarrow> deviceFailure err2 s1))"

text \<open>
  \<open>handleStartSession\<close> up to the registration of the callbacks. The closure holds the
  state of the render in which the handler was created, also when the handler itself has
  to enable the camera first.
\<close>

definition connectLive :: "deviceEnv \<Rightarrow> closure \<Rightarrow> liveCoach \<Rightarrow> liveCoach" where
  "connectLive env c s =
     (let s1 = s\<lparr>hasStarted := True, isConnecting := True, statusMessage := ''Handshaking...'',
                 errorText := None, connectTimeoutRef := True\<rparr>;
          s2 = s1\<lparr>inputAudioCtx := Some (ctxSampleRate env)\<rparr>
      in case connectError env of
           None \<Rightarrow> s2\<lparr>liveCallbacks := Some c, sessionRef := True\<rparr>
         | Some message \<Rightarrow>
             s2\<lparr>errorText := Some (if message = [] then ''Failed to start session.'' else message),
                isConnecting := False\<rparr>)"

definition handleStartSession :: "deviceEnv \<Rightarrow> liveCoach \<Rightarrow> liveCoach" where
  "handleStartSession env s =
     (let c = \<lparr>capturedAudioInputAvailable = audioInputAvailable s, capturedMuted = isMuted s\<rparr>
      in if \<not> isCameraEnabled s \<or> streamRef s = None
         then (let s1 = enableCamera env s
               in if streamRef s1 = None
                  then s1\<lparr>errorText := Some ''Camera lost. Please try enabling again.''\<rparr>
                  else connectLive env c s1)
         else connectLive env c s)"

text \<open>
  \<open>onopen\<close>: the session goes live; the audio tap is created only if the captured
  \<open>audioInputAvailable\<close> holds, a stream and an input context exist and the stream has an
  audio track; the frame interval is started in every case.
\<close>

definition onopen :: "liveCoach \<Rightarrow> liveCoach" where
  "onopen s =
     (case liveCallbacks s of
        None \<Rightarrow> s
      | Some c \<Rightarrow>
          (let s1 = s\<lparr>connectTimeoutRef := False, isConnecting := False, isActive := True,
                      statusMessage := ''Live''\<rparr>;
               s2 = (if capturedAudioInputAvailable c \<and> streamRef s1 \<noteq> None \<and> inputAudioCtx s1 \<noteq> None
                     then (case streamRef s1 of
                             None \<Rightarrow> s1
                           | Some stream \<Rightarrow>
                               if 0 < audioTracks stream
                               then s1\<lparr>inputGainNodeRef := True, scriptProcessorRef := Some c\<rparr>
                               else s1)
                     else s1)
           in s2\<lparr>frameIntervalRef := True\<rparr>))"

text \<open>
  \<open>onaudioprocess\<close> for one block of input samples. Without a tap there is no handler
  to run. The level is the mean of every hundredth absolute sample, times five, capped
  at 1 (\<open>NaN\<close>, here \<open>None\<close>, for an empty block).
\<close>

definition everyHundredth :: "rat list \<Rightarrow> rat list" where
  "everyHundredth inputData = map (\<lambda>i. inputData ! (i * 100)) [0..<(length inputData + 99) div 100]"

definition blockLevel :: "rat list \<Rightarrow> rat option" where
  "blockLevel inputData =
     (if inputData = [] then None
      else Some (min 1 (sum_list (map abs (everyHundredth inputData))
                          / (of_nat (length inputData) / 100) * 5)))"

definition onaudioprocess :: "rat list \<Rightarrow> liveCoach \<Rightarrow> liveCoach" where
  "onaudioprocess inputData s =
     (case scriptProcessorRef s of
        None \<Rightarrow> s
      | Some c \<Rightarrow>
          if capturedMuted c then s\<lparr>micLevel := Some 0\<rparr>
          else (let level = blockLevel inputData;
                    s1 = s\<lparr>micLevel := level\<rparr>;
                    rate = (case inputAudioCtx s of None \<Rightarrow> 48000
                            | Some r \<Rightarrow> if r = 0 then 48000 else r)
                in case audioResample inputData rate of
                     Inl e \<Rightarrow> s1
                   | Inr resampledData \<Rightarrow>
                       if sessionRef s1
                       then s1\<lparr>sentAudio := sentAudio s1 @ [resampledData],
                               isTransmitting := (case level of None \<Rightarrow> False | Some l \<Rightarrow> 1 / 100 < l)\<rparr>
                       else s1))"

fun audioBlocks :: "rat list list \<Rightarrow> liveCoach \<Rightarrow> liveCoach" where
  "audioBlocks [] s = s"
| "audioBlocks (inputData # rest) s = audioBlocks rest (onaudioprocess inputData s)"

text \<open>An environment where the first request is refused and the retry gives a video track.\<close>

definition noMicrophone :: deviceEnv where
  "noMicrophone =
     \<lparr>supported = True, avRequest = Inl NotFoundError,
      videoRequest = Inr \<lparr>audioTracks = 0, videoTracks = 1\<rparr>, connectError = None,
      ctxSampleRate = 48000\<rparr>"

section \<open>Annotation placer (services/geminiService.ts, drawAnnotationsOnCanvas)\<close>

text \<open>
  One element of the coordinate response: \<open>x\<close> and \<open>y\<close> in percent of the frame,
  the label, the side and the status. Pixel coordinates are exact rationals; the text
  width comes from the canvas (\<open>ctx.measureText\<close>) and is a parameter.
\<close>

record annotation =
  annPart :: string
  annLabel :: string
  annX :: rat
  annY :: rat
  labelSide :: string
  annStatus :: bool

definition margin :: rat where
  "margin = 5"

definition fontSize :: "rat \<Rightarrow> rat" where
  "fontSize height = max 10 (of_int \<lfloor>height * (22 / 1000)\<rfloor>)"

definition padding :: "rat \<Rightarrow> rat" where
  "padding width = of_int \<lfloor>width * (12 / 1000)\<rfloor>"

definition arrowOffset :: "rat \<Rightarrow> rat" where
  "arrowOffset width = of_int \<lfloor>width * (1 / 10)\<rfloor>"

definition boxTotalWidth :: "(string \<Rightarrow> rat) \<Rightarrow> rat \<Rightarrow> annotation \<Rightarrow> rat" where
  "boxTotalWidth measureText width item = measureText (annLabel item) + padding width * 2"

definition boxTotalHeight :: "rat \<Rightarrow> rat \<Rightarrow> rat" where
  "boxTotalHeight width height = fontSize height + padding width * 2"

text \<open>
  What the body of \<open>annotations.forEach\<close> draws for one annotation: the box, the
  connector and the colour of the text.
\<close>

record placement =
  boxX1 :: rat
  boxX2 :: rat
  boxY1 :: rat
  boxY2 :: rat
  arrowStartX :: rat
  arrowStartY :: rat
  targetX :: rat
  targetY :: rat
  textColor :: string

definition placeAnnotation ::
  "(string \<Rightarrow> rat) \<Rightarrow> rat \<Rightarrow> rat \<Rightarrow> annotation \<Rightarrow> placement" where
  "placeAnnotation measureText width height item =
     (let tx = (annX item / 100) * width;
          ty = (annY item / 100) * height;
          textH = fontSize height;
          w = boxTotalWidth measureText width item;
          h = boxTotalHeight width height;
          (x1, x2, ax) =
            (if labelSide item = ''left''
             then (let b2 = tx - arrowOffset width; b1 = b2 - w
                   in if b1 < 5 then (5, 5 + w, 5 + w) else (b1, b2, b2))
             else (let b1 = tx + arrowOffset width; b2 = b1 + w
                   in if width - 5 < b2 then (width - 5 - w, width - 5, width - 5 - w)
                      else (b1, b2, b1)));
          y0 = ty - textH / 2 - padding width;
          y1 = (if y0 < 5 then 5 else y0);
          y1' = (if height - 5 < y1 + h then height - h - 5 else y1)
      in \<lparr>boxX1 = x1, boxX2 = x2, boxY1 = y1', boxY2 = y1' + h,
          arrowStartX = ax, arrowStartY = y1' + h / 2, targetX = tx, targetY = ty,
          textColor = (if annStatus item then ''#059669'' else ''#dc2626'')\<rparr>)"

text \<open>A label on the left of a target in the middle of a 64 by 18 pixel frame.\<close>

definition tinyFrameLabel :: annotation where
  "tinyFrameLabel =
     \<lparr>annPart = ''hips'', annLabel = ''Solid base'', annX = 50, annY = 50, labelSide = ''left'',
      annStatus = True\<rparr>"

section \<open>Visualization batch (App.tsx, handleAnalyze; services/geminiService.ts)\<close>











section \<open>Resampler: proofs\<close>

lemma floor_rat_numeral_div: "\<lfloor>numeral a / numeral b :: rat\<rfloor> = numeral a div numeral b"
  using floor_divide_of_int_eq [of "numeral a" "numeral b", where ?'a = rat] by simp

lemma js_trunc_bounds:
  assumes "- 1 \<le> x" "x < 1"
  shows "- 32768 \<le> js_trunc (x * 32768) \<and> js_trunc (x * 32768) \<le> 32767"
proof (cases "x < 0")
  case True
  have eq: "js_trunc (x * 32768) = - \<lfloor>- (x * 32768)\<rfloor>"
    using True by (simp add: js_trunc_def mult_less_0_iff)
  have "0 \<le> - (x * 32768)" using True by simp
  then have lo: "0 \<le> \<lfloor>- (x * 32768)\<rfloor>" by (simp only: zero_le_floor)
  have "- (x * 32768) \<le> of_int 32768" using assms by simp
  then have hi: "\<lfloor>- (x * 32768)\<rfloor> \<le> 32768"
    by (metis floor_mono floor_of_int)
  show ?thesis using eq lo hi by linarith
next
  case False
  have eq: "js_trunc (x * 32768) = \<lfloor>x * 32768\<rfloor>"
    using False by (simp add: js_trunc_def mult_less_0_iff)
  have "0 \<le> x * 32768" using False by simp
  then have lo: "0 \<le> \<lfloor>x * 32768\<rfloor>" by (simp only: zero_le_floor)
  have "x * 32768 < of_int 32768" using assms by simp
  then have hi: "\<lfloor>x * 32768\<rfloor> < 32768"
    by (simp only: floor_less_iff)
  show ?thesis using eq lo hi by linarith
qed

lemma toInt16_in_range:
  assumes "- 32768 \<le> js_trunc x" "js_trunc x \<le> 32767"
  shows "toInt16 (Some x) = js_trunc x"
proof (cases "0 \<le> js_trunc x")
  case True
  then have "js_trunc x mod 65536 = js_trunc x" using assms by simp
  then show ?thesis using assms by (simp add: toInt16_def Let_def)
next
  case False
  have "js_trunc x mod 65536 = (js_trunc x + 65536) mod 65536" by simp
  also have "\<dots> = js_trunc x + 65536"
    using assms False by (intro mod_pos_pos_trivial) linarith+
  finally show ?thesis using assms False by (simp add: toInt16_def Let_def)
qed

lemma toInt16_sample:
  assumes "- 1 \<le> x" "x < 1"
  shows "toInt16 (Some (x * 32768)) = js_trunc (x * 32768)"
  using js_trunc_bounds [OF assms] by (simp add: toInt16_in_range)

text \<open>
  The slip at full scale: a sample of exactly 1 scales to 32768, which \<open>ToInt16\<close> wraps
  to the most negative value.
\<close>

lemma audioResample_full_scale_wraps: "audioResample [1] targetRate = Inr [- 32768]"
  by (simp add: audioResample_def toInt16_def js_trunc_def)

text \<open>
  C1 (as stated): at the target rate the i-th output is \<open>round (input[i] * 32767)\<close>
  clamped to the int16 range. The code scales by 32768 and truncates: the sample 3/4 is
  stored as 24576, where the stated formula gives 24575.
\<close>

theorem C1_counterexample:
  "audioResample [3 / 4] targetRate = Inr [24576] \<and> spec_quantize (3 / 4) = 24575"
  by (simp add: audioResample_def toInt16_def js_trunc_def spec_quantize_def round_def
      floor_rat_numeral_div)

text \<open>
  C1 (amended): for samples in \<open>[-1, 1)\<close> and a source rate equal to the target rate,
  the output has the length of the input and its i-th element is \<open>input[i] * 32768\<close>
  truncated towards zero, a value within \<open>[-32768, 32767]\<close>.
\<close>

theorem C1_audioResample_same_rate:
  assumes "\<forall>x \<in> set buffer. - 1 \<le> x \<and> x < 1"
  shows "\<exists>res. audioResample buffer targetRate = Inr res \<and> length res = length buffer \<and>
           (\<forall>i < length buffer. res ! i = js_trunc (buffer ! i * 32768) \<and>
              - 32768 \<le> res ! i \<and> res ! i \<le> 32767)"
proof -
  let ?res = "map (\<lambda>x. toInt16 (Some (x * 32768))) buffer"
  have res: "audioResample buffer targetRate = Inr ?res"
    by (simp add: audioResample_def)
  have len: "length ?res = length buffer"
    by simp
  have "?res ! i = js_trunc (buffer ! i * 32768) \<and> - 32768 \<le> ?res ! i \<and> ?res ! i \<le> 32767"
    if "i < length buffer" for i
  proof -
    from that assms have "- 1 \<le> buffer ! i" "buffer ! i < 1" by auto
    then show ?thesis
      using that js_trunc_bounds [of "buffer ! i"] by (simp add: toInt16_sample)
  qed
  then have "\<forall>i < length buffer. ?res ! i = js_trunc (buffer ! i * 32768) \<and>
      - 32768 \<le> ?res ! i \<and> ?res ! i \<le> 32767"
    by blast
  with res len show ?thesis by blast
qed

theorem C1_witness:
  "audioResample [3 / 4, - 1, - 1 / 3] targetRate = Inr [24576, - 32768, - 10922]"
proof -
  have "\<forall>x \<in> set [3 / 4, - 1, - 1 / 3 :: rat]. - 1 \<le> x \<and> x < 1" by simp
  from C1_audioResample_same_rate [OF this]
  obtain res where r: "audioResample [3 / 4, - 1, - 1 / 3] targetRate = Inr res"
    and l: "length res = Suc (Suc (Suc 0))"
    and e: "\<forall>i < Suc (Suc (Suc 0)). res ! i = js_trunc ([3 / 4, - 1, - 1 / 3] ! i * 32768)"
    by auto
  from e have "res ! 0 = 24576" "res ! Suc 0 = - 32768" "res ! Suc (Suc 0) = - 10922"
    by (simp_all add: js_trunc_def floor_rat_numeral_div)
  with l have "res = [24576, - 32768, - 10922]"
    by (simp add: list_eq_iff_nth_eq less_Suc_eq)
  with r show ?thesis by simp
qed

text \<open>The two copies of the function compute the same result.\<close>

lemma audioResample2_eq: "audioResample2 buffer sampleRate = audioResample buffer sampleRate"
proof -
  have "toInt16 (Some (max (- 1) (min 1 (orZero v)) * 32768)) =
        toInt16 (map_option (\<lambda>val. val * 32768) (clampSample v))" for v
    by (cases v) (simp_all add: orZero_def clampSample_def toInt16_def js_trunc_def)
  then show ?thesis
    by (simp add: audioResample2_def audioResample_def Let_def split: sum.splits)
qed

lemma audioResample_nth:
  assumes "sampleRate \<noteq> targetRate" "audioResample buffer sampleRate = Inr res" "i < length res"
  shows "res ! i = toInt16 (map_option (\<lambda>val. val * 32768)
           (clampSample (sampleAt buffer (originalIndex (fl (sampleRate / targetRate)) i))))"
  using assms
  by (auto simp: audioResample_def Let_def split: sum.splits)

lemma audioResample_length:
  assumes "sampleRate \<noteq> targetRate" "newLength buffer (fl (sampleRate / targetRate)) = Inr n"
  shows "\<exists>res. audioResample buffer sampleRate = Inr res \<and> length res = n"
  using assms by (simp add: audioResample_def Let_def)

text \<open>
  Without rounding the index stays inside the source: \<open>i < ceil (n / r)\<close> gives
  \<open>floor (i * r) < n\<close>. An out-of-range read can only come from rounding.
\<close>

lemma index_in_range_exact:
  assumes "0 < r" "int i < \<lceil>of_nat n / r\<rceil>"
  shows "0 \<le> \<lfloor>of_nat i * r\<rfloor> \<and> \<lfloor>of_nat i * r\<rfloor> < int n"
proof -
  from assms(2) have "of_nat i < of_nat n / r"
    by (simp add: less_ceiling_iff)
  with assms(1) have "of_nat i * r < of_nat n"
    by (simp add: pos_less_divide_eq)
  then have "\<lfloor>of_nat i * r\<rfloor> < int n"
    by (simp add: floor_less_iff)
  moreover have "0 \<le> of_nat i * r" using assms(1) by simp
  then have "0 \<le> \<lfloor>of_nat i * r\<rfloor>" by (simp only: zero_le_floor)
  ultimately show ?thesis by simp
qed

lemma ratio_44056: "fl (44056 / targetRate) = 3100165393491165 / 1125899906842624"
  by code_simp

lemma length_44056: "\<lceil>fl (5507 / fl (44056 / targetRate))\<rceil> = 2001"
  by code_simp

lemma index_44056: "\<lfloor>fl (2000 * fl (44056 / targetRate))\<rfloor> = 5507"
  by code_simp

lemma ratio_44056_nonzero: "fl (44056 / targetRate) \<noteq> 0"
  by code_simp

lemma exact_44056: "\<lceil>5507 / (44056 / 16000 :: rat)\<rceil> = 2000"
  by code_simp

text \<open>
  C2 (as stated): for a source rate other than the target rate the read at
  \<open>floor (i * sourceRate / targetRate)\<close> is never out of bounds, and an index at or past
  the source length reuses the last valid index. At 44056 Hz and 5507 samples the quotient
  \<open>5507 / 2.7535\<close> is 2000 in exact arithmetic (\<open>exact_44056\<close>), but the double nearest
  to \<open>44056 / 16000\<close> lies below 2.7535, the quotient rounds to 2000.0000000000002 and
  \<open>Math.ceil\<close> gives 2001 output samples. Output 2000 reads index 5507, one past the
  end; the code stores 0 there, not the last sample (1/2, stored as 16384).
\<close>

theorem C2_counterexample:
  "\<not> isl (audioResample (replicate 5507 (1 / 2)) 44056) \<and>
   length (projr (audioResample (replicate 5507 (1 / 2)) 44056)) = 2001 \<and>
   \<lfloor>fl (of_nat 2000 * fl (44056 / targetRate))\<rfloor> = 5507 \<and>
   length (replicate 5507 (1 / 2 :: rat)) = 5507 \<and>
   projr (audioResample (replicate 5507 (1 / 2)) 44056) ! 2000 = 0 \<and>
   toInt16 (Some (max (- 1) (min 1 (replicate 5507 (1 / 2) ! 5506)) * 32768)) = 16384"
proof -
  have ne: "(44056 :: rat) \<noteq> targetRate" by (simp add: targetRate_def)
  have n: "newLength (replicate 5507 (1 / 2)) (fl (44056 / targetRate)) = Inr 2001"
    unfolding newLength_def length_replicate of_nat_numeral length_44056 Let_def
    using ratio_44056_nonzero by simp
  from audioResample_length [OF ne n] obtain res
    where res: "audioResample (replicate 5507 (1 / 2)) 44056 = Inr res" and len: "length res = 2001"
    by blast
  have k: "originalIndex (fl (44056 / targetRate)) 2000 = 5507"
    unfolding originalIndex_def of_nat_numeral by (rule index_44056)
  have "res ! 2000 = 0"
    using audioResample_nth [OF ne res, of 2000] len
    by (simp add: k sampleAt_def clampSample_def toInt16_def)
  moreover have "toInt16 (Some (max (- 1) (min 1 (replicate 5507 (1 / 2) ! 5506)) * 32768)) = 16384"
    by (simp add: toInt16_def js_trunc_def)
  moreover have "\<lfloor>fl (of_nat 2000 * fl (44056 / targetRate))\<rfloor> = 5507"
    unfolding of_nat_numeral by (rule index_44056)
  moreover have "length (replicate 5507 (1 / 2 :: rat)) = 5507" by simp
  moreover have "\<not> isl (audioResample (replicate 5507 (1 / 2)) 44056)"
    and "projr (audioResample (replicate 5507 (1 / 2)) 44056) = res"
    using res by simp_all
  ultimately show ?thesis using len by (simp only: simp_thms)
qed

text \<open>
  C2 (amended): for a source rate other than the target rate, output \<open>i\<close> is computed
  from source index \<open>floor (i * ratio)\<close>, with \<open>ratio = sourceRate / targetRate\<close> and the
  product both rounded to doubles. An index inside the source stores that sample, clamped
  to \<open>[-1, 1]\<close> and scaled by 32768; an index outside the source is not replaced by the
  last valid one: the read gives no sample and 0 is stored. Both copies of the function
  agree.
\<close>

theorem C2_audioResample_index:
  assumes "sampleRate \<noteq> targetRate"
    and "audioResample buffer sampleRate = Inr res"
    and "i < length res"
  shows "audioResample2 buffer sampleRate = Inr res \<and>
    (let k = \<lfloor>fl (of_nat i * fl (sampleRate / targetRate))\<rfloor>
     in if 0 \<le> k \<and> nat k < length buffer
        then res ! i = toInt16 (Some (max (- 1) (min 1 (buffer ! nat k)) * 32768))
        else res ! i = 0)"
  using audioResample_nth [OF assms] assms(2)
  by (simp add: audioResample2_eq originalIndex_def sampleAt_def clampSample_def Let_def toInt16_def)

lemma resample_48000: "audioResample [3 / 4, 1, - 1, 1 / 2] 48000 = Inr [24576, 16384]"
  by code_simp

lemma index_48000: "\<lfloor>fl (1 * fl (48000 / targetRate))\<rfloor> = 3"
  by code_simp

theorem C2_witness:
  "audioResample [3 / 4, 1, - 1, 1 / 2] 48000 = Inr [24576, 16384] \<and>
   audioResample2 [3 / 4, 1, - 1, 1 / 2] 48000 = Inr [24576, 16384] \<and>
   \<lfloor>fl (of_nat 1 * fl (48000 / targetRate))\<rfloor> = 3 \<and>
   [24576, 16384] ! 1 = toInt16 (Some (max (- 1) (min 1 ([3 / 4, 1, - 1, 1 / 2] ! 3)) * 32768))"
proof -
  have ne: "(48000 :: rat) \<noteq> targetRate" by (simp add: targetRate_def)
  have i: "1 < length [24576, 16384 :: int]" by simp
  note t = C2_audioResample_index [OF ne resample_48000 i]
  have a: "audioResample2 [3 / 4, 1, - 1, 1 / 2] 48000 = Inr [24576, 16384]"
    and b: "let k = \<lfloor>fl (of_nat 1 * fl (48000 / targetRate))\<rfloor>
     in if 0 \<le> k \<and> nat k < length [3 / 4, 1, - 1, 1 / 2 :: rat]
        then [24576, 16384] ! 1 = toInt16 (Some (max (- 1) (min 1 ([3 / 4, 1, - 1, 1 / 2] ! nat k)) * 32768))
        else [24576, 16384 :: int] ! 1 = 0"
    using t by (rule conjunct1, rule conjunct2)
  have k: "\<lfloor>fl (of_nat 1 * fl (48000 / targetRate))\<rfloor> = 3"
    unfolding of_nat_1 by (rule index_48000)
  from b have c: "[24576, 16384] ! 1 =
      toInt16 (Some (max (- 1) (min 1 ([3 / 4, 1, - 1, 1 / 2] ! 3)) * 32768))"
    unfolding k Let_def by simp
  from resample_48000 a k c show ?thesis
    by (intro conjI)
qed

section \<open>Playback scheduler: proofs\<close>

lemma duration_decode: "duration (decodeAudioData d r) = of_nat (length d) / r"
  by (simp add: duration_def decodeAudioData_def)

lemma onmessage_audio:
  assumes "outputAudioCtx s" "d \<noteq> []"
  shows "onmessage now (audioMessage d) s =
     s\<lparr>isAiTalking := True,
       nextStartTimeRef := max (nextStartTimeRef s) now + duration (decodeAudioData d 24000),
       started := started s @ [\<lparr>sourceId = length (started s),
          sourceBuffer = decodeAudioData d 24000, startedAt = max (nextStartTimeRef s) now\<rparr>],
       audioSourcesRef := audioSourcesRef s @ [\<lparr>sourceId = length (started s),
          sourceBuffer = decodeAudioData d 24000, startedAt = max (nextStartTimeRef s) now\<rparr>]\<rparr>"
  using assms
  by (simp add: onmessage_def handleInterrupted_def handleAudio_def handleTranscript_def
      audioMessage_def Let_def max_def)

lemma backToBack_snoc:
  "backToBack (xs @ [b]) \<longleftrightarrow>
     backToBack xs \<and> (xs = [] \<or> startedAt (last xs) + duration (sourceBuffer (last xs)) \<le> startedAt b)"
  by (induction xs rule: backToBack.induct) auto

lemma schedInv_onmessage:
  assumes "schedInv s" "\<not> interrupted m"
  shows "schedInv (onmessage now m s)"
proof -
  have t: "started (handleTranscript m s) = started s"
       "nextStartTimeRef (handleTranscript m s) = nextStartTimeRef s"
    by (simp_all add: handleTranscript_def split: option.splits)
  then have "schedInv (handleTranscript m s)"
    using assms(1) by (simp add: schedInv_def)
  then have "schedInv (handleAudio now m (handleTranscript m s))"
    by (auto simp: schedInv_def handleAudio_def Let_def backToBack_snoc split: option.splits)
  then show ?thesis
    using assms(2) by (simp add: onmessage_def handleInterrupted_def)
qed

lemma schedInv_onmessages:
  assumes "schedInv s" "\<forall>e \<in> set evs. \<not> interrupted (snd e)"
  shows "schedInv (onmessages evs s)"
  using assms
  by (induction evs arbitrary: s) (auto simp: schedInv_onmessage)

lemma schedInv_initial: "schedInv initialScheduler"
  by (simp add: schedInv_def initialScheduler_def)

lemma three_buffers:
  assumes "outputAudioCtx s"
    and "length d1 = 24000" "length d2 = 12000" "length d3 = 48000"
  shows "map startedAt (drop (length (started s))
           (started (onmessages [(t, audioMessage d1), (t, audioMessage d2), (t, audioMessage d3)] s)))
         = [max (nextStartTimeRef s) t, max (nextStartTimeRef s) t + 1, max (nextStartTimeRef s) t + 3 / 2]"
proof -
  have ne: "d1 \<noteq> []" "d2 \<noteq> []" "d3 \<noteq> []"
    using assms by auto
  show ?thesis
    using assms ne
    by (simp add: onmessage_audio duration_decode max_def)
qed

lemma onmessage_outputAudioCtx: "outputAudioCtx (onmessage now m s) = outputAudioCtx s"
  by (simp add: onmessage_def handleInterrupted_def handleAudio_def handleTranscript_def Let_def
      split: option.splits)

lemma handleAudio_keeps_sources:
  "set (audioSourcesRef s) \<subseteq> set (audioSourcesRef (handleAudio now m (handleTranscript m s)))"
  by (auto simp: handleAudio_def handleTranscript_def Let_def split: option.splits)

lemma handleAudio_stopped: "stopped (handleAudio now m (handleTranscript m s)) = stopped s"
  by (simp add: handleAudio_def handleTranscript_def Let_def split: option.splits)

lemma onmessage_interrupted:
  assumes "interrupted m"
  shows "audioSourcesRef (onmessage now m s) = []"
    and "nextStartTimeRef (onmessage now m s) = 0"
    and "\<not> isAiTalking (onmessage now m s)"
    and "set (audioSourcesRef s) \<subseteq> set (stopped (onmessage now m s))"
  using assms handleAudio_keeps_sources [of s now m]
  by (auto simp: onmessage_def handleInterrupted_def handleAudio_stopped)

text \<open>
  C3: a new buffer of duration \<open>d\<close> is started at \<open>max nextStart now\<close> and \<open>nextStart\<close>
  becomes that start plus \<open>d\<close>; buffers of 1.0, 0.5 and 2.0 seconds (24000, 12000 and 48000
  samples at 24 kHz) handled at the same clock value \<open>t\<close> start at \<open>t0\<close>, \<open>t0 + 1\<close> and
  \<open>t0 + 1.5\<close> with \<open>t0 = max nextStart t\<close>, so \<open>t0 \<ge> t\<close>; and over any run of messages
  without an interruption, whatever the clock reads, the started sources are back to back.
\<close>

theorem C3_playback_schedule:
  assumes "outputAudioCtx s" and "d \<noteq> []"
    and "length d1 = 24000" and "length d2 = 12000" and "length d3 = 48000"
    and "\<forall>e \<in> set evs. \<not> interrupted (snd e)"
  shows "started (onmessage now (audioMessage d) s) =
           started s @ [\<lparr>sourceId = length (started s), sourceBuffer = decodeAudioData d 24000,
                         startedAt = max (nextStartTimeRef s) now\<rparr>] \<and>
         nextStartTimeRef (onmessage now (audioMessage d) s) =
           max (nextStartTimeRef s) now + duration (decodeAudioData d 24000) \<and>
         map startedAt (drop (length (started s))
           (started (onmessages [(t, audioMessage d1), (t, audioMessage d2), (t, audioMessage d3)] s)))
           = [max (nextStartTimeRef s) t, max (nextStartTimeRef s) t + 1,
              max (nextStartTimeRef s) t + 3 / 2] \<and>
         t \<le> max (nextStartTimeRef s) t \<and>
         backToBack (started (onmessages evs initialScheduler))"
proof -
  have "backToBack (started (onmessages evs initialScheduler))"
    using schedInv_onmessages [OF schedInv_initial assms(6)] by (simp add: schedInv_def)
  moreover note three_buffers [OF assms(1, 3, 4, 5), of t]
  ultimately show ?thesis
    by (simp add: onmessage_audio [OF assms(1, 2)])
qed

theorem C3_witness:
  "map startedAt (started (onmessages
      [(0, audioMessage (replicate 24000 0)), (0, audioMessage (replicate 12000 0)),
       (0, audioMessage (replicate 48000 0))] initialScheduler)) = [0, 1, 3 / 2] \<and>
   backToBack (started (onmessages
      [(0, audioMessage (replicate 24000 0)), (0, audioMessage (replicate 12000 0)),
       (0, audioMessage (replicate 48000 0))] initialScheduler)) \<and>
   nextStartTimeRef (onmessage 2 (audioMessage [0]) initialScheduler) = 2 + 1 / 24000"
proof -
  have ctx: "outputAudioCtx initialScheduler"
    and st: "started initialScheduler = []" and nx: "nextStartTimeRef initialScheduler = 0"
    by (simp_all add: initialScheduler_def)
  have ne: "[0 :: int] \<noteq> []" by simp
  have l: "length (replicate 24000 (0 :: int)) = 24000" "length (replicate 12000 (0 :: int)) = 12000"
    "length (replicate 48000 (0 :: int)) = 48000"
    by simp_all
  have ev: "\<forall>e \<in> set [(0 :: rat, audioMessage (replicate 24000 0)), (0, audioMessage (replicate 12000 0)),
       (0, audioMessage (replicate 48000 0))]. \<not> interrupted (snd e)"
    by (simp add: audioMessage_def)
  from C3_playback_schedule [OF ctx ne l ev, of 2 0]
  show ?thesis
    by (simp add: st nx duration_decode)
qed

text \<open>
  C4 (as stated): an interruption resets \<open>nextStart\<close> to the current output-clock time.
  After buffers of 1.0, 0.5 and 2.0 seconds scheduled at time 0, the first ended, and an
  interruption handled at clock 1.2, \<open>nextStartTimeRef\<close> is 0, not 1.2.
\<close>

theorem C4_counterexample:
  "nextStartTimeRef (onmessage (6 / 5) interruptMessage (onended 0 (onmessages
      [(0, audioMessage (replicate 24000 0)), (0, audioMessage (replicate 12000 0)),
       (0, audioMessage (replicate 48000 0))] initialScheduler))) = 0 \<and>
   nextStartTimeRef (onmessage (6 / 5) interruptMessage (onended 0 (onmessages
      [(0, audioMessage (replicate 24000 0)), (0, audioMessage (replicate 12000 0)),
       (0, audioMessage (replicate 48000 0))] initialScheduler))) \<noteq> 6 / 5"
  by (simp add: onmessage_def handleInterrupted_def interruptMessage_def)

text \<open>
  C4 (amended): on an Interrupted event the handler stops every source still in the set
  (those not yet ended), empties the set, ends the talking state and resets \<open>nextStart\<close>
  to 0; as the next buffer starts at \<open>max nextStart now\<close> and the clock is never negative,
  a buffer handled after the interruption starts at the clock value read for it, not at
  its previously queued position.
\<close>

theorem C4_interrupted:
  assumes "interrupted m" and "outputAudioCtx s" and "d \<noteq> []" and "0 \<le> now'"
  shows "audioSourcesRef (onmessage now m s) = [] \<and>
         set (audioSourcesRef s) \<subseteq> set (stopped (onmessage now m s)) \<and>
         nextStartTimeRef (onmessage now m s) = 0 \<and>
         \<not> isAiTalking (onmessage now m s) \<and>
         started (onmessage now' (audioMessage d) (onmessage now m s)) =
           started (onmessage now m s) @
             [\<lparr>sourceId = length (started (onmessage now m s)),
               sourceBuffer = decodeAudioData d 24000, startedAt = now'\<rparr>]"
proof -
  have ctx: "outputAudioCtx (onmessage now m s)"
    using assms(2) by (simp add: onmessage_outputAudioCtx)
  show ?thesis
    using onmessage_interrupted [OF assms(1), where now = now and s = s] assms(4)
    by (simp add: onmessage_audio [OF ctx assms(3)] max_def)
qed

lemma scenario_before_interrupt:
  "onended 0 (onmessages
      [(0, audioMessage (replicate 24000 0)), (0, audioMessage (replicate 12000 0)),
       (0, audioMessage (replicate 48000 0))] initialScheduler) =
   \<lparr>outputAudioCtx = True, nextStartTimeRef = 7 / 2,
    audioSourcesRef =
      [\<lparr>sourceId = 1, sourceBuffer = decodeAudioData (replicate 12000 0) 24000, startedAt = 1\<rparr>,
       \<lparr>sourceId = 2, sourceBuffer = decodeAudioData (replicate 48000 0) 24000, startedAt = 3 / 2\<rparr>],
    isAiTalking = True, transcripts = [],
    started =
      [\<lparr>sourceId = 0, sourceBuffer = decodeAudioData (replicate 24000 0) 24000, startedAt = 0\<rparr>,
       \<lparr>sourceId = 1, sourceBuffer = decodeAudioData (replicate 12000 0) 24000, startedAt = 1\<rparr>,
       \<lparr>sourceId = 2, sourceBuffer = decodeAudioData (replicate 48000 0) 24000, startedAt = 3 / 2\<rparr>],
    stopped = []\<rparr>"
  by (simp add: onmessage_def handleInterrupted_def handleAudio_def handleTranscript_def
      audioMessage_def initialScheduler_def onended_def duration_decode Let_def)

theorem C4_witness:
  "map startedAt (stopped (onmessage (6 / 5) interruptMessage (onended 0 (onmessages
      [(0, audioMessage (replicate 24000 0)), (0, audioMessage (replicate 12000 0)),
       (0, audioMessage (replicate 48000 0))] initialScheduler)))) = [1, 3 / 2] \<and>
   audioSourcesRef (onmessage (6 / 5) interruptMessage (onended 0 (onmessages
      [(0, audioMessage (replicate 24000 0)), (0, audioMessage (replicate 12000 0)),
       (0, audioMessage (replicate 48000 0))] initialScheduler))) = [] \<and>
   map startedAt (started (onmessage (13 / 10) (audioMessage (replicate 2400 0))
     (onmessage (6 / 5) interruptMessage (onended 0 (onmessages
      [(0, audioMessage (replicate 24000 0)), (0, audioMessage (replicate 12000 0)),
       (0, audioMessage (replicate 48000 0))] initialScheduler))))) = [0, 1, 3 / 2, 13 / 10]"
proof -
  define S where "S = onended 0 (onmessages
      [(0, audioMessage (replicate 24000 0)), (0, audioMessage (replicate 12000 0)),
       (0, audioMessage (replicate 48000 0))] initialScheduler)"
  define S' where "S' = onmessage (6 / 5) interruptMessage S"
  have Seq: "S =
   \<lparr>outputAudioCtx = True, nextStartTimeRef = 7 / 2,
    audioSourcesRef =
      [\<lparr>sourceId = 1, sourceBuffer = decodeAudioData (replicate 12000 0) 24000, startedAt = 1\<rparr>,
       \<lparr>sourceId = 2, sourceBuffer = decodeAudioData (replicate 48000 0) 24000, startedAt = 3 / 2\<rparr>],
    isAiTalking = True, transcripts = [],
    started =
      [\<lparr>sourceId = 0, sourceBuffer = decodeAudioData (replicate 24000 0) 24000, startedAt = 0\<rparr>,
       \<lparr>sourceId = 1, sourceBuffer = decodeAudioData (replicate 12000 0) 24000, startedAt = 1\<rparr>,
       \<lparr>sourceId = 2, sourceBuffer = decodeAudioData (replicate 48000 0) 24000, startedAt = 3 / 2\<rparr>],
    stopped = []\<rparr>"
    unfolding S_def by (rule scenario_before_interrupt)
  have i: "interrupted interruptMessage" by (simp add: interruptMessage_def)
  have c: "outputAudioCtx S" by (simp add: Seq)
  have d: "replicate 2400 (0 :: int) \<noteq> []" by simp
  have n: "(0 :: rat) \<le> 13 / 10" by simp
  have st: "map startedAt (started S') = [0, 1, 3 / 2]"
    and sp: "map startedAt (stopped S') = [1, 3 / 2]"
    by (simp_all add: S'_def Seq onmessage_def handleInterrupted_def handleAudio_def
        handleTranscript_def interruptMessage_def)
  note t = C4_interrupted [OF i c d n, of "6 / 5", folded S'_def]
  have "map startedAt (stopped S') = [1, 3 / 2] \<and> audioSourcesRef S' = [] \<and>
    map startedAt (started (onmessage (13 / 10) (audioMessage (replicate 2400 0)) S'))
      = [0, 1, 3 / 2, 13 / 10]"
    using t by (simp add: st sp)
  then show ?thesis
    unfolding S'_def S_def .
qed

section \<open>Timeline monitor: proofs\<close>



lemma monitorFrames_find:
  assumes "videoRef s = Some v" "smartPlayEnabled s" "\<not> paused v"
  shows "find (\<lambda>t. lastCheckTimeRef s \<le> timestamp t \<and> timestamp t \<le> currentTime v \<and>
            timestamp t \<notin> (if currentTime v < lastCheckTimeRef s - 1 / 2
               then clearAfter ts (currentTime v) (processedTimestamps s)
               else processedTimestamps s)) ts
         = find (due s (currentTime v)) ts"
proof -
  have "(\<lambda>t. lastCheckTimeRef s \<le> timestamp t \<and> timestamp t \<le> currentTime v \<and>
            timestamp t \<notin> (if currentTime v < lastCheckTimeRef s - 1 / 2
               then clearAfter ts (currentTime v) (processedTimestamps s)
               else processedTimestamps s)) = due s (currentTime v)"
    by (auto simp: due_def fun_eq_iff)
  then show ?thesis by simp
qed

lemma monitorFrames_none:
  assumes "videoRef s = Some v" "smartPlayEnabled s" "\<not> paused v"
    and "find (due s (currentTime v)) ts = None"
  shows "monitorFrames ts s =
     s\<lparr>processedTimestamps := (if currentTime v < lastCheckTimeRef s - 1 / 2
               then clearAfter ts (currentTime v) (processedTimestamps s)
               else processedTimestamps s),
       lastCheckTimeRef := currentTime v\<rparr>"
  using assms monitorFrames_find [OF assms(1-3), of ts]
  by (simp add: monitorFrames_def Let_def)

lemma monitorFrames_some:
  assumes "videoRef s = Some v" "smartPlayEnabled s" "\<not> paused v"
    and "find (due s (currentTime v)) ts = Some m"
  shows "monitorFrames ts s =
     (setResumeTimer (clearResumeTimer
        (s\<lparr>videoRef := Some (v\<lparr>paused := True, currentTime := timestamp m\<rparr>),
           processedTimestamps := insert (timestamp m) (processedTimestamps s),
           currentDisplayFeedback := Some (payload m)\<rparr>)))\<lparr>lastCheckTimeRef := currentTime v\<rparr>"
proof -
  from assms(4) have "due s (currentTime v) m"
    by (auto simp: find_Some_iff)
  then have "\<not> currentTime v < lastCheckTimeRef s - 1 / 2"
    by (auto simp: due_def)
  then show ?thesis
    using assms monitorFrames_find [OF assms(1-3), of ts]
    by (simp add: monitorFrames_def Let_def)
qed

lemma timer_fields [simp]:
  "videoRef (clearResumeTimer s) = videoRef s"
  "processedTimestamps (clearResumeTimer s) = processedTimestamps s"
  "currentDisplayFeedback (clearResumeTimer s) = currentDisplayFeedback s"
  "smartPlayEnabled (clearResumeTimer s) = smartPlayEnabled s"
  "lastCheckTimeRef (clearResumeTimer s) = lastCheckTimeRef s"
  "resumeTimerRef (clearResumeTimer s) = resumeTimerRef s"
  "nextTimerId (clearResumeTimer s) = nextTimerId s"
  "videoRef (setResumeTimer s) = videoRef s"
  "processedTimestamps (setResumeTimer s) = processedTimestamps s"
  "currentDisplayFeedback (setResumeTimer s) = currentDisplayFeedback s"
  "smartPlayEnabled (setResumeTimer s) = smartPlayEnabled s"
  "lastCheckTimeRef (setResumeTimer s) = lastCheckTimeRef s"
  by (simp_all add: clearResumeTimer_def clearTimeout_def setResumeTimer_def split: option.splits)

lemma timersTracked_clear: "timersTracked s \<Longrightarrow> timers (clearResumeTimer s) = []"
  by (cases "resumeTimerRef s")
     (auto simp: timersTracked_def clearResumeTimer_def clearTimeout_def list_all_iff
           filter_empty_conv)











lemma monitorFrames_lastCheck:
  assumes "videoRef s = Some v" "smartPlayEnabled s" "\<not> paused v"
  shows "lastCheckTimeRef (monitorFrames ts s) = currentTime v"
proof (cases "find (due s (currentTime v)) ts")
  case None
  show ?thesis
    unfolding monitorFrames_none [OF assms None] by simp
next
  case (Some m)
  show ?thesis
    unfolding monitorFrames_some [OF assms Some] by simp
qed




lemma timersTracked_pageStep:
  assumes "timersTracked s"
  shows "timersTracked (pageStep ts e s)"
proof (cases e)
  case Tick
  show ?thesis
  proof (cases "videoRef s")
    case None
    then show ?thesis using assms by (simp add: Tick monitorFrames_def)
  next
    case (Some v)
    show ?thesis
    proof (cases "smartPlayEnabled s \<and> \<not> paused v")
      case False
      then show ?thesis using assms Some by (auto simp: Tick monitorFrames_def)
    next
      case True
      then have a: "smartPlayEnabled s" "\<not> paused v" by simp_all
      show ?thesis
      proof (cases "find (due s (currentTime v)) ts")
        case None
        show ?thesis
          using assms unfolding Tick pageStep.simps monitorFrames_none [OF Some a None]
          by (simp add: timersTracked_def)
      next
        case (Some m)
        have "timersTracked (s\<lparr>videoRef := Some (v\<lparr>paused := True, currentTime := timestamp m\<rparr>),
           processedTimestamps := insert (timestamp m) (processedTimestamps s),
           currentDisplayFeedback := Some (payload m)\<rparr>)"
          using assms by (simp add: timersTracked_def)
        from timersTracked_clear [OF this] show ?thesis
          unfolding Tick pageStep.simps monitorFrames_some [OF \<open>videoRef s = Some v\<close> a Some]
          by (simp add: timersTracked_def setResumeTimer_def)
      qed
    qed
  qed
next
  case (TimerFired i)
  then show ?thesis
    using assms
    by (auto simp: timerFired_def timersTracked_def clearTimeout_def safePlay_def Let_def
          list_all_iff split: option.splits)
next
  case Toggle
  have "timers (toggleSmartPlay s) = []"
    using assms
    by (auto simp: toggleSmartPlay_def Let_def clearResumeTimer_def clearTimeout_def
          timersTracked_def list_all_iff filter_empty_conv split: option.splits)
  then show ?thesis by (simp add: Toggle timersTracked_def)
next
  case (JumpTo t)
  then show ?thesis
    using assms by (auto simp: jumpToTime_def safePlay_def timersTracked_def split: option.splits)
qed (use assms in \<open>auto simp: onVideo_def timersTracked_def split: option.splits\<close>)

lemma toggle_off:
  assumes "timersTracked s" "smartPlayEnabled s"
  shows "timers (toggleSmartPlay s) = []"
    and "currentDisplayFeedback (toggleSmartPlay s) = None"
    and "\<not> smartPlayEnabled (toggleSmartPlay s)"
    and "videoRef (toggleSmartPlay s) = videoRef s"
  using assms
  by (auto simp: toggleSmartPlay_def Let_def clearResumeTimer_def clearTimeout_def
        timersTracked_def list_all_iff filter_empty_conv split: option.splits)

lemma stays_paused_step:
  assumes "videoPaused s" "timers s = []" "\<not> manualResume e"
  shows "videoPaused (pageStep ts e s) \<and> timers (pageStep ts e s) = []
         \<and> videoTime (pageStep ts e s) = (case e of UserSeek t \<Rightarrow> t | _ \<Rightarrow> videoTime s)"
  using assms
  by (cases e)
     (auto simp: videoPaused_def videoTime_def monitorFrames_def timerFired_def toggleSmartPlay_def
        clearResumeTimer_def clearTimeout_def onVideo_def Let_def split: option.splits)

lemma stays_paused_run:
  assumes "videoPaused s" "timers s = []" "\<forall>e \<in> set es. \<not> manualResume e"
  shows "videoPaused (pageRun ts es s) \<and> timers (pageRun ts es s) = []"
  using assms
proof (induction es arbitrary: s)
  case Nil
  then show ?case by simp
next
  case (Cons e es)
  from Cons.prems have "\<not> manualResume e" "\<forall>e \<in> set es. \<not> manualResume e" by simp_all
  with stays_paused_step [OF Cons.prems(1, 2), of e ts] Cons.IH show ?case
    by simp
qed






text \<open>Every state the page can reach keeps its pending timeouts tracked.\<close>

lemma timersTracked_reachable: "timersTracked (pageRun ts es initialPage)"
proof -
  have "timersTracked s \<Longrightarrow> timersTracked (pageRun ts es s)" for s
    by (induction es arbitrary: s) (simp_all add: timersTracked_pageStep)
  moreover have "timersTracked initialPage"
    by (simp add: timersTracked_def initialPage_def)
  ultimately show ?thesis by blast
qed

text \<open>
  C8: when the monitor is switched off while the video is paused on an entry and the
  dwell timer is pending, the timer is cancelled and the presented payload cleared at
  once, and whatever follows short of a manual resume (frames, expiring timeouts, further
  toggles, pauses, seeks, time passing) leaves the video paused with no timeout pending:
  no auto-resume fires.
\<close>

theorem C8_toggle_off_mid_dwell:
  assumes "timersTracked s" and "smartPlayEnabled s" and "videoPaused s" and "timers s \<noteq> []"
    and "\<forall>e \<in> set es. \<not> manualResume e"
  shows "timers (toggleSmartPlay s) = [] \<and>
         currentDisplayFeedback (toggleSmartPlay s) = None \<and>
         \<not> smartPlayEnabled (toggleSmartPlay s) \<and>
         videoPaused (pageRun ts es (toggleSmartPlay s)) \<and>
         timers (pageRun ts es (toggleSmartPlay s)) = []"
proof -
  note t = toggle_off [OF assms(1, 2)]
  have "videoPaused (toggleSmartPlay s)"
    using assms(3) t(4) by (simp add: videoPaused_def)
  from stays_paused_run [OF this t(1) assms(5)] t show ?thesis
    by blast
qed

lemma dwellPage_eval:
  "timersTracked dwellPage" "smartPlayEnabled dwellPage" "videoPaused dwellPage"
  "timers dwellPage = [\<lparr>timerId = 2, capturedEnabled = True\<rparr>]" "videoTime dwellPage = 5"
  "currentDisplayFeedback dwellPage = Some \<lparr>title = ''b'', feedback = [], positive = False, image = None\<rparr>"
  "videoPaused (dwellExpires dwellPage) = False"
  by code_simp+

theorem C8_witness:
  "videoPaused (pageRun [entryAt 2 ''a'', entryAt 5 ''b'', entryAt 9 ''c'']
      [TimerFired 2, Tick, Advance 3, TimerFired 1, Toggle, Tick, UserSeek 4, Advance 1, Tick]
      (toggleSmartPlay dwellPage)) \<and>
   timers (toggleSmartPlay dwellPage) = [] \<and>
   currentDisplayFeedback (toggleSmartPlay dwellPage) = None"
proof -
  have p: "timers dwellPage \<noteq> []"
    unfolding dwellPage_eval(4) by simp
  have es: "\<forall>e \<in> set [TimerFired 2, Tick, Advance 3, TimerFired 1, Toggle, Tick, UserSeek 4,
      Advance 1, Tick]. \<not> manualResume e"
    by simp
  from C8_toggle_off_mid_dwell [OF dwellPage_eval(1, 2, 3) p es] show ?thesis
    by blast
qed

section \<open>Live session start: proofs\<close>

lemma enableCamera_fallback:
  assumes "supported env" "avRequest env = Inl err" "videoRequest env = Inr stream"
  shows "enableCamera env s =
     s\<lparr>errorText := None, permissionError := False, streamRef := Some stream,
       isCameraEnabled := True, audioInputAvailable := False\<rparr>"
  using assms by (simp add: enableCamera_def handleStreamSuccess_def Let_def)

lemma no_tap_no_audio:
  assumes "scriptProcessorRef s = None"
  shows "audioBlocks blocks s = s"
  using assms
  by (induction blocks) (simp_all add: onaudioprocess_def)

lemma onopen_connectLive:
  assumes "connectError env = None"
  shows "onopen (connectLive env c s) =
     (let tap = capturedAudioInputAvailable c \<and>
                (case streamRef s of None \<Rightarrow> False | Some stream \<Rightarrow> 0 < audioTracks stream)
      in s\<lparr>hasStarted := True, statusMessage := ''Live'', errorText := None,
           inputAudioCtx := Some (ctxSampleRate env), liveCallbacks := Some c, sessionRef := True,
           connectTimeoutRef := False, isConnecting := False, isActive := True,
           inputGainNodeRef := (if tap then True else inputGainNodeRef s),
           scriptProcessorRef := (if tap then Some c else scriptProcessorRef s),
           frameIntervalRef := True\<rparr>)"
  using assms
  by (cases "streamRef s") (simp_all add: onopen_def connectLive_def Let_def)

text \<open>
  C5: when the request for audio and video fails and the request for video alone
  succeeds, the component holds the video stream with \<open>audioInputAvailable = false\<close> and
  no error; the session then opened (the connection given) is active without an error,
  sends frames, has no audio tap and, whatever audio blocks the hardware would deliver,
  sends no audio packet. The same holds when \<open>handleStartSession\<close> itself has to acquire
  the camera, as the stream of a video-only request has no audio track.
\<close>

theorem C5_video_only_fallback:
  assumes "supported env" and "avRequest env = Inl err" and "videoRequest env = Inr stream"
    and "connectError env = None" and "scriptProcessorRef s = None"
  shows "\<not> audioInputAvailable (enableCamera env s) \<and>
         streamRef (enableCamera env s) = Some stream \<and>
         isCameraEnabled (enableCamera env s) \<and>
         errorText (enableCamera env s) = None \<and>
         isActive (onopen (handleStartSession env (enableCamera env s))) \<and>
         errorText (onopen (handleStartSession env (enableCamera env s))) = None \<and>
         frameIntervalRef (onopen (handleStartSession env (enableCamera env s))) \<and>
         \<not> audioInputAvailable (onopen (handleStartSession env (enableCamera env s))) \<and>
         scriptProcessorRef (onopen (handleStartSession env (enableCamera env s))) = None \<and>
         audioBlocks blocks (onopen (handleStartSession env (enableCamera env s)))
           = onopen (handleStartSession env (enableCamera env s)) \<and>
         sentAudio (audioBlocks blocks (onopen (handleStartSession env (enableCamera env s))))
           = sentAudio s \<and>
         (\<not> isCameraEnabled s \<and> audioTracks stream = 0 \<longrightarrow>
            isActive (onopen (handleStartSession env s)) \<and>
            errorText (onopen (handleStartSession env s)) = None \<and>
            \<not> audioInputAvailable (onopen (handleStartSession env s)) \<and>
            scriptProcessorRef (onopen (handleStartSession env s)) = None \<and>
            sentAudio (audioBlocks blocks (onopen (handleStartSession env s))) = sentAudio s)"
proof -
  define s1 where "s1 = enableCamera env s"
  have e: "s1 = s\<lparr>errorText := None, permissionError := False, streamRef := Some stream,
       isCameraEnabled := True, audioInputAvailable := False\<rparr>"
    unfolding s1_def by (rule enableCamera_fallback [OF assms(1-3)])
  let ?c = "\<lparr>capturedAudioInputAvailable = False, capturedMuted = isMuted s\<rparr>"
  have first: "\<not> audioInputAvailable s1" "streamRef s1 = Some stream" "isCameraEnabled s1"
    "errorText s1 = None"
    by (simp_all add: e)
  have h: "handleStartSession env s1 = connectLive env ?c s1"
    by (simp add: handleStartSession_def e)
  have live: "isActive (onopen (handleStartSession env s1))"
    "errorText (onopen (handleStartSession env s1)) = None"
    "frameIntervalRef (onopen (handleStartSession env s1))"
    "\<not> audioInputAvailable (onopen (handleStartSession env s1))"
    "scriptProcessorRef (onopen (handleStartSession env s1)) = None"
    "sentAudio (onopen (handleStartSession env s1)) = sentAudio s"
    unfolding h onopen_connectLive [OF assms(4)]
    using assms(5) by (simp_all add: e Let_def)
  note quiet = no_tap_no_audio [OF live(5), of blocks]
  have direct: "isActive (onopen (handleStartSession env s)) \<and>
      errorText (onopen (handleStartSession env s)) = None \<and>
      \<not> audioInputAvailable (onopen (handleStartSession env s)) \<and>
      scriptProcessorRef (onopen (handleStartSession env s)) = None \<and>
      sentAudio (audioBlocks blocks (onopen (handleStartSession env s))) = sentAudio s"
    if "\<not> isCameraEnabled s" "audioTracks stream = 0"
  proof -
    let ?d = "\<lparr>capturedAudioInputAvailable = audioInputAvailable s, capturedMuted = isMuted s\<rparr>"
    have o: "handleStartSession env s = connectLive env ?d s1"
      using that(1) first(2) by (simp add: handleStartSession_def Let_def s1_def)
    have f: "isActive (onopen (handleStartSession env s))"
      "errorText (onopen (handleStartSession env s)) = None"
      "\<not> audioInputAvailable (onopen (handleStartSession env s))"
      "scriptProcessorRef (onopen (handleStartSession env s)) = None"
      "sentAudio (onopen (handleStartSession env s)) = sentAudio s"
      unfolding o onopen_connectLive [OF assms(4)]
      using assms(5) that(2) by (simp_all add: e Let_def)
    with no_tap_no_audio [OF f(4), of blocks] show ?thesis
      by simp
  qed
  from first live quiet direct show ?thesis
    unfolding s1_def by simp
qed

theorem C5_witness:
  "\<not> audioInputAvailable (enableCamera noMicrophone initialCoach) \<and>
   streamRef (enableCamera noMicrophone initialCoach) = Some \<lparr>audioTracks = 0, videoTracks = 1\<rparr> \<and>
   isActive (onopen (handleStartSession noMicrophone (enableCamera noMicrophone initialCoach))) \<and>
   scriptProcessorRef (onopen (handleStartSession noMicrophone (enableCamera noMicrophone initialCoach)))
     = None \<and>
   sentAudio (audioBlocks [[1 / 2, - 1 / 4], [1 / 8]]
     (onopen (handleStartSession noMicrophone (enableCamera noMicrophone initialCoach)))) = [] \<and>
   scriptProcessorRef (onopen (handleStartSession noMicrophone initialCoach)) = None"
proof -
  have a: "supported noMicrophone" and b: "avRequest noMicrophone = Inl NotFoundError"
    and c: "videoRequest noMicrophone = Inr \<lparr>audioTracks = 0, videoTracks = 1\<rparr>"
    and d: "connectError noMicrophone = None"
    by (simp_all add: noMicrophone_def)
  have i: "scriptProcessorRef initialCoach = None"
    and n: "sentAudio initialCoach = []"
    and k: "\<not> isCameraEnabled initialCoach \<and> audioTracks \<lparr>audioTracks = 0, videoTracks = 1\<rparr> = 0"
    by (simp_all add: initialCoach_def)
  note t = C5_video_only_fallback [OF a b c d i, of "[[1 / 2, - 1 / 4], [1 / 8]]", unfolded n]
  from t have "\<not> audioInputAvailable (enableCamera noMicrophone initialCoach)"
    by blast
  moreover from t have "streamRef (enableCamera noMicrophone initialCoach)
      = Some \<lparr>audioTracks = 0, videoTracks = 1\<rparr>"
    by blast
  moreover from t have "isActive (onopen (handleStartSession noMicrophone
      (enableCamera noMicrophone initialCoach)))"
    by blast
  moreover from t have "scriptProcessorRef (onopen (handleStartSession noMicrophone
      (enableCamera noMicrophone initialCoach))) = None"
    by blast
  moreover from t have "sentAudio (audioBlocks [[1 / 2, - 1 / 4], [1 / 8]]
     (onopen (handleStartSession noMicrophone (enableCamera noMicrophone initialCoach)))) = []"
    by blast
  moreover from t k have "scriptProcessorRef (onopen (handleStartSession noMicrophone initialCoach)) = None"
    by blast
  ultimately show ?thesis
    by (intro conjI)
qed

section \<open>Annotation placer: proofs\<close>

lemma placeAnnotation_left:
  assumes "labelSide item = ''left''"
  shows "margin \<le> boxX1 (placeAnnotation measureText width height item)"
    and "arrowStartX (placeAnnotation measureText width height item)
           = boxX2 (placeAnnotation measureText width height item)"
  using assms by (simp_all add: placeAnnotation_def margin_def Let_def)

lemma placeAnnotation_right:
  assumes "labelSide item \<noteq> ''left''"
  shows "boxX2 (placeAnnotation measureText width height item) \<le> width - margin"
    and "arrowStartX (placeAnnotation measureText width height item)
           = boxX1 (placeAnnotation measureText width height item)"
  using assms by (simp_all add: placeAnnotation_def margin_def Let_def)

lemma placeAnnotation_size:
  "boxX2 (placeAnnotation measureText width height item)
     - boxX1 (placeAnnotation measureText width height item) = boxTotalWidth measureText width item"
  "boxY2 (placeAnnotation measureText width height item)
     - boxY1 (placeAnnotation measureText width height item) = boxTotalHeight width height"
  "arrowStartY (placeAnnotation measureText width height item)
     = (boxY1 (placeAnnotation measureText width height item)
        + boxY2 (placeAnnotation measureText width height item)) / 2"
  by (simp_all add: placeAnnotation_def Let_def)

lemma boxY1_eq:
  "boxY1 (placeAnnotation measureText width height item) =
     (let y0 = annY item / 100 * height - boxTotalHeight width height / 2;
          y1 = (if y0 < 5 then 5 else y0)
      in if height - 5 < y1 + boxTotalHeight width height
         then height - boxTotalHeight width height - 5 else y1)"
proof -
  have "annY item / 100 * height - fontSize height / 2 - padding width
      = annY item / 100 * height - boxTotalHeight width height / 2"
    by (simp add: boxTotalHeight_def field_simps)
  then show ?thesis
    by (simp add: placeAnnotation_def Let_def)
qed

lemma placeAnnotation_vertical:
  "boxY2 (placeAnnotation measureText width height item) \<le> height - margin"
  "boxTotalHeight width height \<le> height - 2 * margin \<Longrightarrow>
     margin \<le> boxY1 (placeAnnotation measureText width height item)"
  "margin \<le> annY item / 100 * height - boxTotalHeight width height / 2 \<Longrightarrow>
   annY item / 100 * height + boxTotalHeight width height / 2 \<le> height - margin \<Longrightarrow>
     (boxY1 (placeAnnotation measureText width height item)
        + boxY2 (placeAnnotation measureText width height item)) / 2 = annY item / 100 * height"
proof -
  let ?p = "placeAnnotation measureText width height item"
  have y2: "boxY2 ?p = boxY1 ?p + boxTotalHeight width height"
    using placeAnnotation_size(2) [where item = item and measureText = measureText
        and width = width and height = height]
    by simp
  show "boxY2 ?p \<le> height - margin"
    unfolding y2 boxY1_eq by (simp add: margin_def Let_def)
  show "margin \<le> boxY1 ?p" if "boxTotalHeight width height \<le> height - 2 * margin"
    using that unfolding boxY1_eq by (simp add: margin_def Let_def)
  show "(boxY1 ?p + boxY2 ?p) / 2 = annY item / 100 * height"
    if "margin \<le> annY item / 100 * height - boxTotalHeight width height / 2"
      and "annY item / 100 * height + boxTotalHeight width height / 2 \<le> height - margin"
  proof -
    from that have "boxY1 ?p = annY item / 100 * height - boxTotalHeight width height / 2"
      unfolding boxY1_eq by (simp add: margin_def Let_def)
    then show ?thesis
      unfolding y2 by simp
  qed
qed

text \<open>
  C9 (as stated): the vertical clamp keeps the whole box within the top and bottom
  margins. On a 64 by 18 pixel frame the box is 10 pixels high, more than the 8 pixels
  between the margins; the bottom clamp wins and the box starts at \<open>y = 3\<close>, above the
  top margin of 5.
\<close>

theorem C9_counterexample:
  "boxY1 (placeAnnotation (\<lambda>label. 40) 64 18 tinyFrameLabel) = 3 \<and>
   boxY1 (placeAnnotation (\<lambda>label. 40) 64 18 tinyFrameLabel) < margin"
  by (simp add: placeAnnotation_def tinyFrameLabel_def fontSize_def padding_def arrowOffset_def
      boxTotalWidth_def boxTotalHeight_def margin_def Let_def floor_rat_numeral_div)

text \<open>
  C9 (amended): with side left the box is placed so that its left edge is at or right of
  the margin, with side right so that its right edge is at or left of \<open>width - margin\<close>;
  in both cases the box keeps its size and the connector starts at the edge of the box as
  placed (its right edge for left, its left edge for right), at half its height. The box
  is centred on the target's y when that leaves it between the margins; otherwise it is
  moved so that its bottom edge is at most \<open>height - margin\<close>, and its top edge is at
  least the margin whenever the box is no higher than \<open>height - 2 * margin\<close>.
\<close>

theorem C9_placement:
  "(labelSide item = ''left'' \<longrightarrow>
      margin \<le> boxX1 (placeAnnotation measureText width height item) \<and>
      arrowStartX (placeAnnotation measureText width height item)
        = boxX2 (placeAnnotation measureText width height item)) \<and>
   (labelSide item \<noteq> ''left'' \<longrightarrow>
      boxX2 (placeAnnotation measureText width height item) \<le> width - margin \<and>
      arrowStartX (placeAnnotation measureText width height item)
        = boxX1 (placeAnnotation measureText width height item)) \<and>
   boxX2 (placeAnnotation measureText width height item)
     - boxX1 (placeAnnotation measureText width height item) = boxTotalWidth measureText width item \<and>
   boxY2 (placeAnnotation measureText width height item)
     - boxY1 (placeAnnotation measureText width height item) = boxTotalHeight width height \<and>
   arrowStartY (placeAnnotation measureText width height item)
     = (boxY1 (placeAnnotation measureText width height item)
        + boxY2 (placeAnnotation measureText width height item)) / 2 \<and>
   (margin \<le> annY item / 100 * height - boxTotalHeight width height / 2 \<and>
    annY item / 100 * height + boxTotalHeight width height / 2 \<le> height - margin \<longrightarrow>
      (boxY1 (placeAnnotation measureText width height item)
         + boxY2 (placeAnnotation measureText width height item)) / 2 = annY item / 100 * height) \<and>
   boxY2 (placeAnnotation measureText width height item) \<le> height - margin \<and>
   (boxTotalHeight width height \<le> height - 2 * margin \<longrightarrow>
      margin \<le> boxY1 (placeAnnotation measureText width height item))"
  using placeAnnotation_left [where item = item and measureText = measureText
      and width = width and height = height]
    placeAnnotation_right [where item = item and measureText = measureText
      and width = width and height = height]
    placeAnnotation_size [where item = item and measureText = measureText
      and width = width and height = height]
    placeAnnotation_vertical [where item = item and measureText = measureText
      and width = width and height = height]
  by blast

text \<open>
  The two placements of the specification, on a 640 by 480 frame with a label 120
  pixels wide: a target at x = 10 with side left, and one at x = 95 with side right.
\<close>

lemma placement_examples:
  "placeAnnotation (\<lambda>label. 120) 640 480
     \<lparr>annPart = ''arms'', annLabel = ''Over-extended elbow'', annX = 10, annY = 50,
      labelSide = ''left'', annStatus = False\<rparr>
   = \<lparr>boxX1 = 5, boxX2 = 139, boxY1 = 228, boxY2 = 252, arrowStartX = 139, arrowStartY = 240,
      targetX = 64, targetY = 240, textColor = ''#dc2626''\<rparr>"
  "placeAnnotation (\<lambda>label. 120) 640 480
     \<lparr>annPart = ''head'', annLabel = ''Sufficient rotation'', annX = 95, annY = 2,
      labelSide = ''right'', annStatus = True\<rparr>
   = \<lparr>boxX1 = 501, boxX2 = 635, boxY1 = 5, boxY2 = 29, arrowStartX = 501, arrowStartY = 17,
      targetX = 608, targetY = 48 / 5, textColor = ''#059669''\<rparr>"
  by (simp_all add: placeAnnotation_def fontSize_def padding_def arrowOffset_def
      boxTotalWidth_def boxTotalHeight_def Let_def floor_rat_numeral_div)

theorem C9_witness:
  "margin \<le> boxX1 (placeAnnotation (\<lambda>label. 120) 640 480
     \<lparr>annPart = ''arms'', annLabel = ''Over-extended elbow'', annX = 10, annY = 50,
      labelSide = ''left'', annStatus = False\<rparr>) \<and>
   boxX1 (placeAnnotation (\<lambda>label. 120) 640 480
     \<lparr>annPart = ''arms'', annLabel = ''Over-extended elbow'', annX = 10, annY = 50,
      labelSide = ''left'', annStatus = False\<rparr>) = 5 \<and>
   (boxY1 (placeAnnotation (\<lambda>label. 120) 640 480
     \<lparr>annPart = ''arms'', annLabel = ''Over-extended elbow'', annX = 10, annY = 50,
      labelSide = ''left'', annStatus = False\<rparr>)
    + boxY2 (placeAnnotation (\<lambda>label. 120) 640 480
     \<lparr>annPart = ''arms'', annLabel = ''Over-extended elbow'', annX = 10, annY = 50,
      labelSide = ''left'', annStatus = False\<rparr>)) / 2 = 240 \<and>
   boxX2 (placeAnnotation (\<lambda>label. 120) 640 480
     \<lparr>annPart = ''head'', annLabel = ''Sufficient rotation'', annX = 95, annY = 2,
      labelSide = ''right'', annStatus = True\<rparr>) \<le> 640 - margin \<and>
   margin \<le> boxY1 (placeAnnotation (\<lambda>label. 120) 640 480
     \<lparr>annPart = ''head'', annLabel = ''Sufficient rotation'', annX = 95, annY = 2,
      labelSide = ''right'', annStatus = True\<rparr>)"
proof -
  let ?a = "\<lparr>annPart = ''arms'', annLabel = ''Over-extended elbow'', annX = 10, annY = 50,
      labelSide = ''left'', annStatus = False\<rparr>"
  let ?b = "\<lparr>annPart = ''head'', annLabel = ''Sufficient rotation'', annX = 95, annY = 2,
      labelSide = ''right'', annStatus = True\<rparr>"
  have H: "boxTotalHeight 640 480 = 24"
    by (simp add: boxTotalHeight_def fontSize_def padding_def floor_rat_numeral_div)
  have l: "labelSide ?a = ''left''" and r: "labelSide ?b \<noteq> ''left''"
    by simp_all
  have c: "margin \<le> annY ?a / 100 * 480 - boxTotalHeight 640 480 / 2 \<and>
      annY ?a / 100 * 480 + boxTotalHeight 640 480 / 2 \<le> 480 - margin"
    and f: "boxTotalHeight 640 480 \<le> 480 - 2 * margin"
    unfolding H by (simp_all add: margin_def)
  note A = C9_placement [where item = ?a and measureText = "\<lambda>label. 120"
      and width = 640 and height = 480]
  note B = C9_placement [where item = ?b and measureText = "\<lambda>label. 120"
      and width = 640 and height = 480]
  from A l have "margin \<le> boxX1 (placeAnnotation (\<lambda>label. 120) 640 480 ?a)"
    by blast
  moreover have "boxX1 (placeAnnotation (\<lambda>label. 120) 640 480 ?a) = 5"
    unfolding placement_examples by simp
  moreover from A c have "(boxY1 (placeAnnotation (\<lambda>label. 120) 640 480 ?a)
      + boxY2 (placeAnnotation (\<lambda>label. 120) 640 480 ?a)) / 2 = annY ?a / 100 * 480"
    by blast
  then have "(boxY1 (placeAnnotation (\<lambda>label. 120) 640 480 ?a)
      + boxY2 (placeAnnotation (\<lambda>label. 120) 640 480 ?a)) / 2 = 240"
    by simp
  moreover from B r have "boxX2 (placeAnnotation (\<lambda>label. 120) 640 480 ?b) \<le> 640 - margin"
    by blast
  moreover from B f have "margin \<le> boxY1 (placeAnnotation (\<lambda>label. 120) 640 480 ?b)"
    by blast
  ultimately show ?thesis
    by (intro conjI)
qed

section \<open>Visualization batch: proofs\<close>





end
